theory Spec2Isabelle
  imports Main "HOL-Library.Sublist" "HOL-Library.AList"
begin

section \<open>Paths\<close>

text \<open>
  A location on disk is the list of its segments below the filesystem root.  Strings handed
  to the filesystem calls of \<^verbatim>\<open>node:fs/promises\<close> are split at the separator and
  resolved segment by segment: the empty segment and \<^verbatim>\<open>.\<close> are skipped,
  \<^verbatim>\<open>..\<close> drops the last segment.  A relative string is resolved against the working
  directory, which the model fixes to the filesystem root.
\<close>

type_synonym path = "string list"

fun split_sep :: "string \<Rightarrow> string \<Rightarrow> string list" where
  "split_sep cur [] = [rev cur]"
| "split_sep cur (c # cs) =
     (if c = CHR ''/'' then rev cur # split_sep [] cs else split_sep (c # cur) cs)"

definition segs :: "string \<Rightarrow> string list" where
  "segs s = filter (\<lambda>x. x \<noteq> []) (split_sep [] s)"

definition step_seg :: "path \<Rightarrow> string \<Rightarrow> path" where
  "step_seg acc s = (if s = ''..'' then butlast acc else if s = ''.'' then acc else acc @ [s])"

definition resolve_from :: "path \<Rightarrow> string \<Rightarrow> path" where
  "resolve_from base s = foldl step_seg base (segs s)"

definition resolve :: "string \<Rightarrow> path" where
  "resolve s = resolve_from [] s"

text \<open>\<^verbatim>\<open>join\<close> of \<^verbatim>\<open>node:path\<close> (POSIX flavour) on two arguments: empty arguments
  are dropped, the rest is joined with the separator and normalised; a relative result keeps
  the \<^verbatim>\<open>..\<close> segments that climb above its start.\<close>

fun norm_segs :: "bool \<Rightarrow> string list \<Rightarrow> string list \<Rightarrow> string list" where
  "norm_segs ab acc [] = acc"
| "norm_segs ab acc (s # ss) =
     (if s = [] \<or> s = ''.'' then norm_segs ab acc ss
      else if s = ''..'' then
        (if acc \<noteq> [] \<and> last acc \<noteq> ''..'' then norm_segs ab (butlast acc) ss
         else if ab then norm_segs ab acc ss
         else norm_segs ab (acc @ [s]) ss)
      else norm_segs ab (acc @ [s]) ss)"

fun intercalate :: "string list \<Rightarrow> string" where
  "intercalate [] = []"
| "intercalate [s] = s"
| "intercalate (s # t # ss) = s @ ''/'' @ intercalate (t # ss)"

definition normalize :: "string \<Rightarrow> string" where
  "normalize p =
     (if p = [] then ''.''
      else let ab = (hd p = CHR ''/'');
               trail = (last p = CHR ''/'');
               body = intercalate (norm_segs ab [] (split_sep [] p))
           in if body = [] then (if ab then ''/'' else if trail then ''./'' else ''.'')
              else (if ab then ''/'' else []) @ body @ (if trail then ''/'' else []))"

definition join :: "string \<Rightarrow> string \<Rightarrow> string" where
  "join a b =
     (if a = [] \<and> b = [] then ''.''
      else if a = [] then normalize b
      else if b = [] then normalize a
      else normalize (a @ ''/'' @ b))"

text \<open>Modelled from the spec: \<^verbatim>\<open>slash\<close> of \<^verbatim>\<open>get-paths.js\<close> is not under src/;
  the spec (4.1) has every separator of an exposed string normalised to the forward slash.\<close>

definition slash :: "string \<Rightarrow> string" where
  "slash s = map (\<lambda>c. if c = CHR 0x5C then CHR ''/'' else c) s"

section \<open>The filesystem\<close>

datatype node = File string | Dir

type_synonym fs = "(path \<times> node) list"

datatype error = SameRootDir | ENOENT | ENOTDIR | EEXIST | EISDIR | EINVAL

definition is_file :: "node option \<Rightarrow> bool" where
  "is_file x = (case x of Some (File _) \<Rightarrow> True | _ \<Rightarrow> False)"

text \<open>\<^verbatim>\<open>mkdir(p, {recursive: true})\<close>: fails when \<open>p\<close> or one of its ancestors is a file,
  otherwise creates every missing directory on the way.\<close>

definition mkdir_p :: "path \<Rightarrow> fs \<Rightarrow> error + fs" where
  "mkdir_p p d =
     (if is_file (map_of d p) then Inl EEXIST
      else if list_ex (\<lambda>q. is_file (map_of d q)) (prefixes p) then Inl ENOTDIR
      else Inr (fold (\<lambda>q. AList.update q Dir) (prefixes p) d))"

text \<open>\<^verbatim>\<open>writeFile(p, c)\<close>: the parent must be a directory, \<open>p\<close> must not be one; an
  existing file is overwritten.\<close>

definition write_file :: "path \<Rightarrow> string \<Rightarrow> fs \<Rightarrow> error + fs" where
  "write_file p c d =
     (if p = [] then Inl EISDIR
      else case map_of d (butlast p) of
             None \<Rightarrow> Inl ENOENT
           | Some (File _) \<Rightarrow> Inl ENOTDIR
           | Some Dir \<Rightarrow>
               (if map_of d p = Some Dir then Inl EISDIR
                else Inr (AList.update p (File c) d)))"

text \<open>\<^verbatim>\<open>rm(p, {recursive: true, force: true})\<close>: removes \<open>p\<close> and everything below it;
  with \<^verbatim>\<open>force\<close> an absent \<open>p\<close> is not an error.\<close>

definition rm_rf :: "path \<Rightarrow> fs \<Rightarrow> fs" where
  "rm_rf p d = filter (\<lambda>(q, n). \<not> prefix p q) d"

text \<open>\<^verbatim>\<open>readdir(p)\<close>: the names of the direct children of the directory \<open>p\<close>.\<close>

definition readdir :: "path \<Rightarrow> fs \<Rightarrow> error + string list" where
  "readdir p d =
     (case map_of d p of
        None \<Rightarrow> Inl ENOENT
      | Some (File _) \<Rightarrow> Inl ENOTDIR
      | Some Dir \<Rightarrow> Inr (remdups (map (\<lambda>(q, n). last q) (filter (\<lambda>(q, n). q \<noteq> [] \<and> butlast q = p) d))))"

text \<open>The writing calls are collected as a list of operations and run in order; the run
  stops at the first failure and keeps what was written until then.\<close>

datatype fs_op = Mkdir path | WriteFile path string

fun step_op :: "fs_op \<Rightarrow> fs \<Rightarrow> error + fs" where
  "step_op (Mkdir p) d = mkdir_p p d"
| "step_op (WriteFile p c) d = write_file p c d"

fun run :: "fs_op list \<Rightarrow> fs \<Rightarrow> error option \<times> fs" where
  "run [] d = (None, d)"
| "run (x # xs) d = (case step_op x d of Inl e \<Rightarrow> (Some e, d) | Inr d' \<Rightarrow> run xs d')"

text \<open>\<^verbatim>\<open>cp(src, dst, {recursive: true})\<close>: fails when the source is absent, when source and
  destination are the same location, or when a directory is copied into itself; otherwise
  every entry at or below the source is written to the matching location below the
  destination, existing files being overwritten (\<^verbatim>\<open>force\<close> is on by default).\<close>

definition cp_ops :: "path \<Rightarrow> path \<Rightarrow> fs \<Rightarrow> fs_op list" where
  "cp_ops src dst d =
     concat (map (\<lambda>(q, n).
       if prefix src q then
         (let t = dst @ drop (length src) q
          in case n of Dir \<Rightarrow> [Mkdir t] | File c \<Rightarrow> [Mkdir (butlast t), WriteFile t c])
       else []) d)"

definition cp :: "path \<Rightarrow> path \<Rightarrow> fs \<Rightarrow> error option \<times> fs" where
  "cp src dst d =
     (if map_of d src = None then (Some ENOENT, d)
      else if src = dst \<or> (map_of d src = Some Dir \<and> prefix src dst) then (Some EINVAL, d)
      else run (cp_ops src dst d) d)"

section \<open>Directory specifications and the missing helpers\<close>

datatype item = FileItem string | DirItem "(string \<times> item) list"

type_synonym directory = "(string \<times> item) list"

text \<open>Modelled from the spec: \<^verbatim>\<open>createIFFImpl\<close> of \<^verbatim>\<open>create-iff-impl.js\<close> is not
  under src/.  After the spec (4.3): a directory node first ensures its directory, then
  materialises its children; a file leaf is written at the directory joined with its key,
  parent directories being created first when the key has several segments.  The children
  of one directory run concurrently in the source; the model runs them in declared order.\<close>

fun item_ops :: "path \<Rightarrow> string \<Rightarrow> item \<Rightarrow> fs_op list"
  and dir_ops :: "path \<Rightarrow> (string \<times> item) list \<Rightarrow> fs_op list" where
  "item_ops base k (FileItem c) =
     (let p = resolve_from base k
      in (if 1 < length (segs k) then [Mkdir (butlast p)] else []) @ [WriteFile p c])"
| "item_ops base k (DirItem d) =
     (let b = resolve_from base k in Mkdir b # dir_ops b d)"
| "dir_ops base [] = []"
| "dir_ops base (x # xs) = item_ops base (fst x) (snd x) @ dir_ops base xs"

definition createIFFImpl_ops :: "directory \<Rightarrow> path \<Rightarrow> fs_op list" where
  "createIFFImpl_ops directory baseDir = Mkdir baseDir # dir_ops baseDir directory"

text \<open>A string exposed to the caller: \<^verbatim>\<open>unixStylePath ? slash(join(rootDir, p)) : join(rootDir, p)\<close>.\<close>

definition exposed :: "bool \<Rightarrow> string \<Rightarrow> string \<Rightarrow> string" where
  "exposed unix rootDir p = (if unix then slash (join rootDir p) else join rootDir p)"

text \<open>A path table is a JavaScript object: an assignment to a key that is present replaces
  the value in place, a new key goes to the end.  Spreading \<^verbatim>\<open>{...a, ...b}\<close> assigns the
  entries of \<open>b\<close> in order onto a copy of \<open>a\<close>.  (Keys that are array indices, which
  JavaScript enumerates before all others, are not told apart: the order of a table is the
  order of first assignment.)\<close>

type_synonym table = "(string \<times> string) list"

definition spread :: "table \<Rightarrow> table \<Rightarrow> table" where
  "spread a b = fold (\<lambda>kv. AList.update (fst kv) (snd kv)) b a"

text \<open>Modelled from the spec: \<^verbatim>\<open>getPaths\<close> of \<^verbatim>\<open>get-paths.js\<close> is not under src/.
  After the spec (3, 4.1): a depth-first walk that emits one entry for every node at its
  relative path and one for every intermediate directory a key with several segments
  implies, parents before descendants, in declared key order; the value is the root
  directory joined with the relative path.\<close>

fun item_rels :: "string list \<Rightarrow> string \<Rightarrow> item \<Rightarrow> string list list"
  and dir_rels :: "string list \<Rightarrow> (string \<times> item) list \<Rightarrow> string list list" where
  "item_rels pre k (FileItem c) = map (\<lambda>t. pre @ t) (tl (prefixes (segs k)))"
| "item_rels pre k (DirItem d) =
     map (\<lambda>t. pre @ t) (tl (prefixes (segs k))) @ dir_rels (pre @ segs k) d"
| "dir_rels pre [] = []"
| "dir_rels pre (x # xs) = item_rels pre (fst x) (snd x) @ dir_rels pre xs"

definition getPaths :: "directory \<Rightarrow> string \<Rightarrow> bool \<Rightarrow> table" where
  "getPaths directory rootDir unix =
     spread [] (map (\<lambda>r. (intercalate r, exposed unix rootDir (intercalate r))) (dir_rels [] directory))"

text \<open>Modelled from the spec: \<^verbatim>\<open>changeRootDirOfPaths\<close> of \<^verbatim>\<open>get-paths.js\<close> is not
  under src/.  After the spec (4.2): keys unchanged, every value placed under the new root
  directory.  The source passes the table and the new root only, so the new value is the
  new root joined with the key.\<close>

definition changeRootDirOfPaths :: "table \<Rightarrow> string \<Rightarrow> bool \<Rightarrow> table" where
  "changeRootDirOfPaths tab rootDir unix = map (\<lambda>kv. (fst kv, exposed unix rootDir (fst kv))) tab"

section \<open>The fixture handle\<close>

text \<open>\<^verbatim>\<open>DefineIFFCreatorOptions\<close>.  The injected \<^verbatim>\<open>generateRootDir\<close> may answer
  differently on every call: \<open>generateRootDir cfg n\<close> is its answer when it has been called
  \<open>n\<close> times before.  The world holds the disk and the number of calls made so far.\<close>

record config =
  generateRootDir :: "nat \<Rightarrow> string"
  unixStylePath :: "bool option"

record world =
  disk :: fs
  gen_calls :: nat

text \<open>The object built by \<^verbatim>\<open>createIFF\<close>: the exposed \<^verbatim>\<open>rootDir\<close> and \<^verbatim>\<open>paths\<close>,
  and what its methods close over: the root directory as resolved at creation, the
  specification and the previous handle.\<close>

datatype iff = IFF (closure_rootDir: string) (rootDir: string) (paths: table)
                   (directory: directory) (prevIFF: "iff option")

definition unix_of :: "config \<Rightarrow> bool" where
  "unix_of cfg = (case unixStylePath cfg of Some b \<Rightarrow> b | None \<Rightarrow> False)"

definition pick_rootDir :: "config \<Rightarrow> string option \<Rightarrow> world \<Rightarrow> string \<times> world" where
  "pick_rootDir cfg override w =
     (case override of
        Some r \<Rightarrow> (r, w)
      | None \<Rightarrow> (generateRootDir cfg (gen_calls w), w\<lparr>gen_calls := Suc (gen_calls w)\<rparr>))"

definition iff_join :: "config \<Rightarrow> iff \<Rightarrow> string \<Rightarrow> string" where
  "iff_join cfg h p = exposed (unix_of cfg) (closure_rootDir h) p"

fun writeFixtures_ops :: "iff \<Rightarrow> string option \<Rightarrow> fs_op list" where
  "writeFixtures_ops (IFF r er ps d prev) ov =
     (let target = (case ov of Some x \<Rightarrow> x | None \<Rightarrow> r)
      in (case prev of None \<Rightarrow> [] | Some p \<Rightarrow> writeFixtures_ops p (Some target))
         @ createIFFImpl_ops d (resolve target))"

definition writeFixtures :: "iff \<Rightarrow> string option \<Rightarrow> world \<Rightarrow> error option \<times> world" where
  "writeFixtures h ov w =
     (case run (writeFixtures_ops h ov) (disk w) of (e, d) \<Rightarrow> (e, w\<lparr>disk := d\<rparr>))"

definition rmRootDir :: "iff \<Rightarrow> world \<Rightarrow> error option \<times> world" where
  "rmRootDir h w = (None, w\<lparr>disk := rm_rf (resolve (closure_rootDir h)) (disk w)\<rparr>)"

definition rmFixtures :: "config \<Rightarrow> iff \<Rightarrow> world \<Rightarrow> error option \<times> world" where
  "rmFixtures cfg h w =
     (case readdir (resolve (closure_rootDir h)) (disk w) of
        Inl e \<Rightarrow> (Some e, w)
      | Inr files \<Rightarrow>
          (None, w\<lparr>disk := fold (\<lambda>file. rm_rf (resolve (iff_join cfg h file))) files (disk w)\<rparr>))"


definition createIFF ::
  "config \<Rightarrow> directory \<Rightarrow> string option \<Rightarrow> iff option \<Rightarrow> world \<Rightarrow> (error + iff) \<times> world" where
  "createIFF cfg dir override prev w =
     (case pick_rootDir cfg override w of (r, w1) \<Rightarrow>
        (let unix = unix_of cfg;
             ps = spread (changeRootDirOfPaths (case prev of Some p \<Rightarrow> paths p | None \<Rightarrow> []) r unix)
                         (getPaths dir r unix);
             h = IFF r (if unix then slash r else r) ps dir prev
         in case writeFixtures h None w1 of
              (Some e, w2) \<Rightarrow> (Inl e, w2)
            | (None, w2) \<Rightarrow> (Inr h, w2)))"

definition addFixtures :: "config \<Rightarrow> iff \<Rightarrow> directory \<Rightarrow> world \<Rightarrow> (error + iff) \<times> world" where
  "addFixtures cfg h additionalDirectory w =
     createIFF cfg additionalDirectory (Some (closure_rootDir h)) (Some h) w"

definition fork ::
  "config \<Rightarrow> iff \<Rightarrow> directory \<Rightarrow> string option \<Rightarrow> world \<Rightarrow> (error + iff) \<times> world" where
  "fork cfg h additionalDirectory override w =
     (case pick_rootDir cfg override w of (newRootDir, w1) \<Rightarrow>
        (if newRootDir = closure_rootDir h then (Inl SameRootDir, w1)
         else (case createIFF cfg additionalDirectory (Some newRootDir) (Some h) w1 of
                 (Inl e, w2) \<Rightarrow> (Inl e, w2)
               | (Inr forkedIff, w2) \<Rightarrow>
                   (case cp (resolve (closure_rootDir h)) (resolve newRootDir) (disk w2) of
                      (Some e, d) \<Rightarrow> (Inl e, w2\<lparr>disk := d\<rparr>)
                    | (None, d) \<Rightarrow> (Inr forkedIff, w2\<lparr>disk := d\<rparr>)))))"

section \<open>What a list of operations writes\<close>

text \<open>The entries a successful run of the operations leaves behind, later operations
  winning: every location on the way to a created directory is a directory, every written
  location holds the content written last.\<close>

fun delta :: "fs_op list \<Rightarrow> path \<Rightarrow> node option" where
  "delta [] = Map.empty"
| "delta (Mkdir p # xs) = (\<lambda>q. if prefix q p then Some Dir else None) ++ delta xs"
| "delta (WriteFile p c # xs) = [p \<mapsto> File c] ++ delta xs"






text \<open>In a walk, every relative path comes after its parent (or its parent is in the
  set \<open>S\<close> of paths seen before).\<close>

fun parents_first :: "string list set \<Rightarrow> string list list \<Rightarrow> bool" where
  "parents_first S [] = True"
| "parents_first S (x # xs) = (x \<noteq> [] \<and> butlast x \<in> S \<and> parents_first (insert x S) xs)"

section \<open>Example values\<close>

text \<open>A creator whose generator answers \<^verbatim>\<open>/g0\<close> on its first call and \<^verbatim>\<open>/g1\<close>
  afterwards, an empty disk, and the handle and world that creating
  \<^verbatim>\<open>{'a.txt': 'a'}\<close> at \<^verbatim>\<open>/base\<close> yields on it.\<close>

definition ex_cfg :: config where
  "ex_cfg = \<lparr>generateRootDir = (\<lambda>n. if n = 0 then ''/g0'' else ''/g1''), unixStylePath = None\<rparr>"

definition ex_world :: world where
  "ex_world = \<lparr>disk = [], gen_calls = 0\<rparr>"

definition ex_base :: iff where
  "ex_base = IFF ''/base'' ''/base'' [(''a.txt'', ''/base/a.txt'')] [(''a.txt'', FileItem ''a'')] None"

definition ex_base_world :: world where
  "ex_base_world =
     \<lparr>disk = [([], Dir), ([''base''], Dir), ([''base'', ''a.txt''], File ''a'')], gen_calls = 0\<rparr>"



text \<open>The handle and world that creating \<^verbatim>\<open>{'a.txt': 'a'}\<close> at \<^verbatim>\<open>/fx/base\<close> yields
  on the empty disk.\<close>

definition ex_inner :: iff where
  "ex_inner = IFF ''/fx/base'' ''/fx/base'' [(''a.txt'', ''/fx/base/a.txt'')]
                  [(''a.txt'', FileItem ''a'')] None"

definition ex_inner_world :: world where
  "ex_inner_world =
     \<lparr>disk = [([], Dir), ([''fx''], Dir), ([''fx'', ''base''], Dir),
              ([''fx'', ''base'', ''a.txt''], File ''a'')], gen_calls = 0\<rparr>"

text \<open>The handle that adding \<^verbatim>\<open>{'b.txt': 'b'}\<close> to the handle at \<^verbatim>\<open>/base\<close> yields.\<close>

definition ex_added :: iff where
  "ex_added = IFF ''/base'' ''/base'' [(''a.txt'', ''/base/a.txt''), (''b.txt'', ''/base/b.txt'')]
                  [(''b.txt'', FileItem ''b'')] (Some ex_base)"

section \<open>Properties\<close>

lemma ex_base_built:
  "createIFF ex_cfg [(''a.txt'', FileItem ''a'')] (Some ''/base'') None ex_world
     = (Inr ex_base, ex_base_world)"
  by code_simp

subsection \<open>Deleting\<close>

lemma map_of_rm_rf: "map_of (rm_rf p d) q = (if prefix p q then None else map_of d q)"
  by (induction d) (auto simp: rm_rf_def)

lemma rm_rf_idem: "rm_rf p (rm_rf p d) = rm_rf p d"
  by (simp add: rm_rf_def)

text \<open>C9: \<^verbatim>\<open>rmRootDir()\<close> never fails, also when the root directory is absent; afterwards
  nothing exists at or below the root directory and every other location is as before; a
  second call changes nothing more.\<close>

theorem rmRootDir_deletes_tree:
  "fst (rmRootDir h w) = None
   \<and> map_of (disk (snd (rmRootDir h w))) q
       = (if prefix (resolve (closure_rootDir h)) q then None else map_of (disk w) q)
   \<and> rmRootDir h (snd (rmRootDir h w)) = rmRootDir h w"
  by (simp add: rmRootDir_def map_of_rm_rf rm_rf_idem)

text \<open>C10: when nothing exists at the root directory, \<^verbatim>\<open>rmFixtures()\<close> fails with the
  not-found error of \<^verbatim>\<open>readdir\<close> and deletes nothing, while \<^verbatim>\<open>rmRootDir()\<close> on the
  same world reports no error.\<close>

theorem rmFixtures_absent_root:
  assumes "map_of (disk w) (resolve (closure_rootDir h)) = None"
  shows "rmFixtures cfg h w = (Some ENOENT, w) \<and> fst (rmRootDir h w) = None"
  using assms by (simp add: rmFixtures_def readdir_def rmRootDir_def)

theorem rmFixtures_absent_root_witness:
  "map_of (disk ex_world) (resolve (closure_rootDir ex_base)) = None
   \<and> rmFixtures ex_cfg ex_base ex_world = (Some ENOENT, ex_world)
   \<and> fst (rmRootDir ex_base ex_world) = None"
proof -
  have h: "map_of (disk ex_world) (resolve (closure_rootDir ex_base)) = None"
    by (simp add: ex_world_def)
  show ?thesis using h rmFixtures_absent_root [OF h, of ex_cfg] by simp
qed

subsection \<open>The root directory generator\<close>

lemma gen_calls_writeFixtures: "gen_calls (snd (writeFixtures h ov w)) = gen_calls w"
  by (simp add: writeFixtures_def split: prod.splits)

lemma gen_calls_createIFF:
  "gen_calls (snd (createIFF cfg dir override prev w))
     = gen_calls (snd (pick_rootDir cfg override w))"
proof -
  obtain r w1 where p: "pick_rootDir cfg override w = (r, w1)"
    by (cases "pick_rootDir cfg override w")
  define h where "h = IFF r (if unix_of cfg then slash r else r)
      (spread (changeRootDirOfPaths (case prev of Some p \<Rightarrow> paths p | None \<Rightarrow> []) r (unix_of cfg))
              (getPaths dir r (unix_of cfg))) dir prev"
  obtain e w2 where wf: "writeFixtures h None w1 = (e, w2)"
    by (cases "writeFixtures h None w1")
  have "gen_calls w2 = gen_calls w1"
    using gen_calls_writeFixtures [of h None w1] wf by simp
  moreover have "snd (createIFF cfg dir override prev w) = w2"
    using p wf by (simp add: createIFF_def Let_def h_def [symmetric] split: option.splits)
  ultimately show ?thesis using p by simp
qed

text \<open>C8: a fixture creation and a fork each call \<^verbatim>\<open>generateRootDir\<close> not at all when an
  override root directory is given and exactly once when none is given, whatever the outcome
  of the call; so the call for a fork is made by the fork itself, not when the forked handle
  was created.\<close>

theorem generateRootDir_call_count:
  "gen_calls (snd (createIFF cfg dir override prev w))
     = gen_calls w + (case override of None \<Rightarrow> 1 | Some r \<Rightarrow> 0)
   \<and> gen_calls (snd (fork cfg h extra override w))
     = gen_calls w + (case override of None \<Rightarrow> 1 | Some r \<Rightarrow> 0)"
proof
  show "gen_calls (snd (createIFF cfg dir override prev w))
     = gen_calls w + (case override of None \<Rightarrow> 1 | Some r \<Rightarrow> 0)"
    by (simp add: gen_calls_createIFF pick_rootDir_def split: option.splits)
next
  obtain r w1 where p: "pick_rootDir cfg override w = (r, w1)"
    by (cases "pick_rootDir cfg override w")
  have g: "gen_calls w1 = gen_calls w + (case override of None \<Rightarrow> 1 | Some r \<Rightarrow> 0)"
    using p by (auto simp: pick_rootDir_def split: option.splits)
  have c: "gen_calls (snd (createIFF cfg extra (Some r) (Some h) w1)) = gen_calls w1"
    by (simp add: gen_calls_createIFF pick_rootDir_def)
  show "gen_calls (snd (fork cfg h extra override w))
     = gen_calls w + (case override of None \<Rightarrow> 1 | Some r \<Rightarrow> 0)"
    using p g c by (auto simp: fork_def split: prod.splits sum.splits option.splits)
qed

subsection \<open>Forking\<close>

text \<open>C5: when the new root directory of a fork, taken from the override or from the
  generator, is the string the handle was created with, the fork fails with the root
  collision error and the disk is as it was before the call.\<close>

theorem fork_same_rootDir_rejected:
  assumes "fst (pick_rootDir cfg override w) = closure_rootDir h"
  shows "fst (fork cfg h extra override w) = Inl SameRootDir
       \<and> disk (snd (fork cfg h extra override w)) = disk w"
  using assms by (auto simp: fork_def pick_rootDir_def split: prod.splits option.splits)

theorem fork_same_rootDir_rejected_witness:
  "fst (pick_rootDir ex_cfg (Some ''/base'') ex_base_world) = closure_rootDir ex_base
   \<and> fst (fork ex_cfg ex_base [(''b.txt'', FileItem ''b'')] (Some ''/base'') ex_base_world)
       = Inl SameRootDir
   \<and> disk (snd (fork ex_cfg ex_base [(''b.txt'', FileItem ''b'')] (Some ''/base'') ex_base_world))
       = disk ex_base_world"
proof -
  have h: "fst (pick_rootDir ex_cfg (Some ''/base'') ex_base_world) = closure_rootDir ex_base"
    by (simp add: pick_rootDir_def ex_base_def)
  show ?thesis
    using h fork_same_rootDir_rejected [OF h, of "[(''b.txt'', FileItem ''b'')]"] by simp
qed

text \<open>C1: forking the handle of \<^verbatim>\<open>{'a.txt': 'a'}\<close> at \<^verbatim>\<open>/base\<close> to \<^verbatim>\<open>/forked\<close> with
  the additional fixture \<^verbatim>\<open>{'a.txt': 'z'}\<close> succeeds and leaves \<^verbatim>\<open>/forked/a.txt\<close> with
  the content \<^verbatim>\<open>a\<close> of the old root directory: the copy ran after the additional fixture
  was written and overwrote it.\<close>

theorem fork_copy_overwrites_additional:
  "fst (fork ex_cfg ex_base [(''a.txt'', FileItem ''z'')] (Some ''/forked'') ex_base_world)
     = Inr (IFF ''/forked'' ''/forked'' [(''a.txt'', ''/forked/a.txt'')]
              [(''a.txt'', FileItem ''z'')] (Some ex_base))
   \<and> map_of (disk (snd (fork ex_cfg ex_base [(''a.txt'', FileItem ''z'')] (Some ''/forked'')
                          ex_base_world))) [''forked'', ''a.txt'']
     = Some (File ''a'')"
  by code_simp

subsection \<open>Running operations\<close>











lemma run_append:
  "run (xs @ ys) d = (case run xs d of (None, d') \<Rightarrow> run ys d' | (Some e, d') \<Rightarrow> (Some e, d'))"
  by (induction xs arbitrary: d) (auto split: sum.splits)




subsection \<open>Replaying a lineage\<close>











lemma createIFF_Inr:
  assumes "createIFF cfg dir override prev w = (Inr h, w')"
  shows "h = IFF (fst (pick_rootDir cfg override w))
                 (if unix_of cfg then slash (fst (pick_rootDir cfg override w))
                  else fst (pick_rootDir cfg override w))
                 (spread (changeRootDirOfPaths (case prev of Some p \<Rightarrow> paths p | None \<Rightarrow> [])
                            (fst (pick_rootDir cfg override w)) (unix_of cfg))
                         (getPaths dir (fst (pick_rootDir cfg override w)) (unix_of cfg)))
                 dir prev"
    and "run (writeFixtures_ops h None) (disk w) = (None, disk w')"
    and "gen_calls w' = gen_calls (snd (pick_rootDir cfg override w))"
proof -
  obtain r w1 where p: "pick_rootDir cfg override w = (r, w1)"
    by (cases "pick_rootDir cfg override w")
  define h0 where "h0 = IFF r (if unix_of cfg then slash r else r)
      (spread (changeRootDirOfPaths (case prev of Some p \<Rightarrow> paths p | None \<Rightarrow> []) r (unix_of cfg))
              (getPaths dir r (unix_of cfg))) dir prev"
  obtain e w2 where wf: "writeFixtures h0 None w1 = (e, w2)"
    by (cases "writeFixtures h0 None w1")
  have c: "createIFF cfg dir override prev w = (case e of Some x \<Rightarrow> (Inl x, w2) | None \<Rightarrow> (Inr h0, w2))"
    unfolding createIFF_def p prod.case Let_def h0_def [symmetric] wf by (cases e) simp_all
  then have e: "e = None" and h: "h = h0" and w2: "w' = w2"
    using assms by (auto split: option.splits)
  have dw: "disk w1 = disk w" "gen_calls w1 = gen_calls (snd (pick_rootDir cfg override w))"
    using p by (auto simp: pick_rootDir_def split: option.splits)
  show "h = IFF (fst (pick_rootDir cfg override w))
                 (if unix_of cfg then slash (fst (pick_rootDir cfg override w))
                  else fst (pick_rootDir cfg override w))
                 (spread (changeRootDirOfPaths (case prev of Some p \<Rightarrow> paths p | None \<Rightarrow> [])
                            (fst (pick_rootDir cfg override w)) (unix_of cfg))
                         (getPaths dir (fst (pick_rootDir cfg override w)) (unix_of cfg)))
                 dir prev"
    using h p by (simp add: h0_def)
  obtain e' d' where r: "run (writeFixtures_ops h0 None) (disk w1) = (e', d')"
    by (cases "run (writeFixtures_ops h0 None) (disk w1)")
  then have "e' = e" "w2 = w1\<lparr>disk := d'\<rparr>" using wf by (auto simp: writeFixtures_def)
  then show "run (writeFixtures_ops h None) (disk w) = (None, disk w')"
    using r e h w2 dw by simp
  show "gen_calls w' = gen_calls (snd (pick_rootDir cfg override w))"
    using wf w2 dw gen_calls_writeFixtures [of h0 None w1] by simp
qed




subsection \<open>Adding fixtures\<close>




subsection \<open>What a fork touches\<close>

lemma ex_inner_built:
  "createIFF ex_cfg [(''a.txt'', FileItem ''a'')] (Some ''/fx/base'') None ex_world
     = (Inr ex_inner, ex_inner_world)"
  by code_simp








lemma dom_delta_WriteFile: "dom (delta [WriteFile p c]) = {p}"
  by auto












subsection \<open>Path tables\<close>

lemma spread_Cons: "spread a (kv # b) = spread (AList.update (fst kv) (snd kv) a) b"
  by (simp add: spread_def)

lemma map_of_spread_rev: "map_of (spread a b) = map_of a ++ map_of (rev b)"
proof (induction b arbitrary: a)
  case Nil show ?case by (simp add: spread_def)
next
  case (Cons kv b)
  have "map_of (spread a (kv # b)) = map_of (AList.update (fst kv) (snd kv) a) ++ map_of (rev b)"
    using Cons [of "AList.update (fst kv) (snd kv) a"] by (simp only: spread_Cons)
  also have "\<dots> = (map_of a)(fst kv \<mapsto> snd kv) ++ map_of (rev b)"
    by (simp only: update_conv')
  also have "\<dots> = map_of a ++ map_of (rev (kv # b))"
    by (cases kv) (auto simp: map_add_def fun_eq_iff split: option.splits)
  finally show ?case .
qed

lemma map_of_rev_distinct: "distinct (map fst xs) \<Longrightarrow> map_of (rev xs) = map_of xs"
proof (induction xs)
  case Nil show ?case by simp
next
  case (Cons kv xs)
  then have n: "map_of xs (fst kv) = None" by (cases kv) (auto simp: map_of_eq_None_iff)
  have "map_of (rev (kv # xs)) = map_of [kv] ++ map_of xs" using Cons by simp
  then show ?case using n by (cases kv) (auto simp: map_add_def fun_eq_iff split: option.splits)
qed

lemma distinct_spread: "distinct (map fst a) \<Longrightarrow> distinct (map fst (spread a b))"
  by (induction b arbitrary: a) (simp_all add: spread_def distinct_update)


lemma set_update_subset: "set (AList.update k v al) \<subseteq> insert (k, v) (set al)"
  by (induction al) auto

lemma set_spread_subset: "set (spread a b) \<subseteq> set a \<union> set b"
proof (induction b arbitrary: a)
  case Nil show ?case by (simp add: spread_def)
next
  case (Cons kv b)
  show ?case using Cons [of "AList.update (fst kv) (snd kv) a"] set_update_subset [of "fst kv" "snd kv" a]
    by (auto simp: spread_Cons)
qed

lemma distinct_getPaths: "distinct (map fst (getPaths d r u))"
  by (simp add: getPaths_def distinct_spread)

lemma getPaths_values: "(k, v) \<in> set (getPaths d r u) \<Longrightarrow> v = exposed u r k"
  using set_spread_subset [of "[]" "map (\<lambda>r'. (intercalate r', exposed u r (intercalate r'))) (dir_rels [] d)"]
  by (auto simp: getPaths_def)

lemma changeRootDirOfPaths_values: "(k, v) \<in> set (changeRootDirOfPaths tab r u) \<Longrightarrow> v = exposed u r k"
  by (auto simp: changeRootDirOfPaths_def)

lemma changeRootDirOfPaths_same:
  "\<forall>kv\<in>set tab. snd kv = exposed u r (fst kv) \<Longrightarrow> changeRootDirOfPaths tab r u = tab"
  unfolding changeRootDirOfPaths_def by (rule map_idI) (auto simp: prod_eq_iff)

lemma createIFF_fields:
  assumes "createIFF cfg dir override prev w = (Inr h, w')"
  shows "closure_rootDir h = fst (pick_rootDir cfg override w)"
    and "rootDir h = (if unix_of cfg then slash (closure_rootDir h) else closure_rootDir h)"
    and "paths h = spread (changeRootDirOfPaths (case prev of Some p \<Rightarrow> paths p | None \<Rightarrow> [])
                             (closure_rootDir h) (unix_of cfg))
                          (getPaths dir (closure_rootDir h) (unix_of cfg))"
    and "directory h = dir"
    and "prevIFF h = prev"
proof -
  note e = createIFF_Inr(1) [OF assms]
  show c: "closure_rootDir h = fst (pick_rootDir cfg override w)"
    using arg_cong [OF e, of closure_rootDir] by simp
  show "rootDir h = (if unix_of cfg then slash (closure_rootDir h) else closure_rootDir h)"
    using arg_cong [OF e, of rootDir] c by simp
  show "paths h = spread (changeRootDirOfPaths (case prev of Some p \<Rightarrow> paths p | None \<Rightarrow> [])
                             (closure_rootDir h) (unix_of cfg))
                          (getPaths dir (closure_rootDir h) (unix_of cfg))"
    using arg_cong [OF e, of paths] c by simp
  show "directory h = dir" using arg_cong [OF e, of directory] by simp
  show "prevIFF h = prev" using arg_cong [OF e, of prevIFF] by simp
qed

lemma createIFF_paths_values:
  assumes "createIFF cfg dir override prev w = (Inr h, w')"
  shows "\<forall>kv\<in>set (paths h). snd kv = exposed (unix_of cfg) (closure_rootDir h) (fst kv)"
proof
  let ?r = "closure_rootDir h"
  let ?a = "changeRootDirOfPaths (case prev of Some p \<Rightarrow> paths p | None \<Rightarrow> []) ?r (unix_of cfg)"
  let ?b = "getPaths dir ?r (unix_of cfg)"
  fix kv assume "kv \<in> set (paths h)"
  then have "kv \<in> set ?a \<union> set ?b"
    using createIFF_fields(3) [OF assms] set_spread_subset [of ?a ?b] by auto
  then show "snd kv = exposed (unix_of cfg) (closure_rootDir h) (fst kv)"
    using changeRootDirOfPaths_values [of "fst kv" "snd kv"] getPaths_values [of "fst kv" "snd kv"]
    by auto
qed

text \<open>C3: for a handle \<open>h\<close> built by this creator, the handle returned by
  \<^verbatim>\<open>addFixtures\<close> has the same root directory, and its path table is the table of \<open>h\<close>
  with the entries of the new specification assigned onto it: a key of the new specification
  takes the new value, every other entry of \<open>h\<close> keeps its value.\<close>

theorem addFixtures_paths:
  assumes built: "createIFF cfg dir override prev w0 = (Inr h, w1)"
      and added: "addFixtures cfg h extra w = (Inr h', w')"
  shows "rootDir h' = rootDir h
       \<and> closure_rootDir h' = closure_rootDir h
       \<and> paths h' = spread (paths h) (getPaths extra (closure_rootDir h) (unix_of cfg))
       \<and> map_of (paths h') = map_of (paths h) ++ map_of (getPaths extra (closure_rootDir h) (unix_of cfg))"
proof -
  have c: "createIFF cfg extra (Some (closure_rootDir h)) (Some h) w = (Inr h', w')"
    using added by (simp add: addFixtures_def)
  have r: "rootDir h = (if unix_of cfg then slash (closure_rootDir h) else closure_rootDir h)"
    using createIFF_fields(2) [OF built] .
  have c': "closure_rootDir h' = closure_rootDir h"
    using createIFF_fields(1) [OF c] by (simp add: pick_rootDir_def)
  have r': "rootDir h' = (if unix_of cfg then slash (closure_rootDir h) else closure_rootDir h)"
    using createIFF_fields(2) [OF c] c' by simp
  have p': "paths h' = spread (changeRootDirOfPaths (paths h) (closure_rootDir h) (unix_of cfg))
                              (getPaths extra (closure_rootDir h) (unix_of cfg))"
    using createIFF_fields(3) [OF c] c' by simp
  have same: "changeRootDirOfPaths (paths h) (closure_rootDir h) (unix_of cfg) = paths h"
    using changeRootDirOfPaths_same [OF createIFF_paths_values [OF built]] .
  have p: "paths h' = spread (paths h) (getPaths extra (closure_rootDir h) (unix_of cfg))"
    using p' same by simp
  have m: "map_of (paths h') = map_of (paths h) ++ map_of (getPaths extra (closure_rootDir h) (unix_of cfg))"
    using p map_of_spread_rev map_of_rev_distinct [OF distinct_getPaths] by simp
  show ?thesis using r r' c' p m by simp
qed

theorem addFixtures_paths_witness:
  "createIFF ex_cfg [(''a.txt'', FileItem ''a'')] (Some ''/base'') None ex_world
     = (Inr ex_base, ex_base_world)
   \<and> fst (addFixtures ex_cfg ex_base [(''b.txt'', FileItem ''b'')] ex_base_world) = Inr ex_added
   \<and> rootDir ex_added = rootDir ex_base
   \<and> paths ex_added = spread (paths ex_base) (getPaths [(''b.txt'', FileItem ''b'')] ''/base'' False)
   \<and> paths ex_added = [(''a.txt'', ''/base/a.txt''), (''b.txt'', ''/base/b.txt'')]"
proof -
  have a: "fst (addFixtures ex_cfg ex_base [(''b.txt'', FileItem ''b'')] ex_base_world) = Inr ex_added"
    by code_simp
  then have b: "addFixtures ex_cfg ex_base [(''b.txt'', FileItem ''b'')] ex_base_world
     = (Inr ex_added, snd (addFixtures ex_cfg ex_base [(''b.txt'', FileItem ''b'')] ex_base_world))"
    by (metis prod.collapse)
  have c: "closure_rootDir ex_base = ''/base''" "unix_of ex_cfg = False"
          "paths ex_added = [(''a.txt'', ''/base/a.txt''), (''b.txt'', ''/base/b.txt'')]"
    by (simp_all add: ex_base_def ex_cfg_def unix_of_def ex_added_def)
  show ?thesis using a c ex_base_built addFixtures_paths [OF ex_base_built b] by simp
qed

subsection \<open>Flattening\<close>


lemma parents_first_mono: "parents_first S xs \<Longrightarrow> S \<subseteq> S' \<Longrightarrow> parents_first S' xs"
proof (induction xs arbitrary: S S')
  case Nil show ?case by simp
next
  case (Cons x xs)
  have "insert x S \<subseteq> insert x S'" using Cons.prems by auto
  then show ?case using Cons by auto
qed













end
